theory Spec2Isabelle
  imports Main
begin

section \<open>Strings and the two regular expressions of the components\<close>

text \<open>
  JavaScript strings are modelled as \<open>string\<close>. \<open>startsWith\<close> and \<open>str_includes\<close> are
  \<open>String.prototype.startsWith\<close> and \<open>String.prototype.includes\<close>: a scan from the left
  that tries the search string at every position.
\<close>

fun startsWith :: "string \<Rightarrow> string \<Rightarrow> bool" where
  "startsWith s [] = True"
| "startsWith [] (p # ps) = False"
| "startsWith (c # cs) (p # ps) = (c = p \<and> startsWith cs ps)"

fun str_includes :: "string \<Rightarrow> string \<Rightarrow> bool" where
  "str_includes [] searchString = startsWith [] searchString"
| "str_includes (c # cs) searchString = (startsWith (c # cs) searchString \<or> str_includes cs searchString)"

text \<open>The character class \<open>[a-zA-Z0-9]\<close>, by character code.\<close>

definition isAlnum :: "char \<Rightarrow> bool" where
  "isAlnum c =
     (let n = (of_char c :: nat)
      in (97 \<le> n \<and> n \<le> 122) \<or> (65 \<le> n \<and> n \<le> 90) \<or> (48 \<le> n \<and> n \<le> 57))"

text \<open>
  The pattern \<open>/stream\.mux\.com\/([a-zA-Z0-9]+)/\<close> of \<open>getPlaybackId\<close>.
  \<open>match_here\<close> tries it at the start of its argument: the literal, then the greedy
  group, which needs one character at least; nothing follows the group in the pattern, so
  the group is the longest run. \<open>match_mux\<close> is \<open>String.prototype.match\<close> without the
  \<open>g\<close> flag: the leftmost start position that matches wins, and the result is the
  capture group (\<open>match[1]\<close>), or \<open>None\<close> for \<open>null\<close>.
\<close>

definition match_here :: "string \<Rightarrow> string option" where
  "match_here s =
     (if startsWith s ''stream.mux.com/''
      then (case takeWhile isAlnum (drop (length ''stream.mux.com/'') s) of
              [] \<Rightarrow> None
            | g # gs \<Rightarrow> Some (g # gs))
      else None)"

fun match_mux :: "string \<Rightarrow> string option" where
  "match_mux [] = match_here []"
| "match_mux (c # cs) =
     (case match_here (c # cs) of Some g \<Rightarrow> Some g | None \<Rightarrow> match_mux cs)"

text \<open>
  The pattern \<open>/Android|webOS|iPhone|iPad|iPod|BlackBerry|IEMobile|Opera Mini/i\<close> that both
  components test the user agent with. The alternatives are plain words, so the test
  succeeds when one of them occurs in the user agent; the flag \<open>i\<close> compares letters
  without regard to case, which for these ASCII words is the comparison of the lower-cased
  strings.
\<close>

definition toLowerChar :: "char \<Rightarrow> char" where
  "toLowerChar c =
     (case map_of (zip ''ABCDEFGHIJKLMNOPQRSTUVWXYZ'' ''abcdefghijklmnopqrstuvwxyz'') c of
        None \<Rightarrow> c
      | Some l \<Rightarrow> l)"

definition mobile_alternatives :: "string list" where
  "mobile_alternatives =
     [''Android'', ''webOS'', ''iPhone'', ''iPad'', ''iPod'', ''BlackBerry'', ''IEMobile'',
      ''Opera Mini'']"

definition test_mobile :: "string \<Rightarrow> bool" where
  "test_mobile userAgent =
     list_ex (\<lambda>alt. str_includes (map toLowerChar userAgent) (map toLowerChar alt))
       mobile_alternatives"

section \<open>The browser objects the components read\<close>

text \<open>
  \<open>navigator.connection\<close> and \<open>navigator.mozConnection\<close> are read through \<open>any\<close>:
  either may be missing, and so may the property read from them (\<open>None\<close> is
  \<open>undefined\<close>).
\<close>

record NetworkInformation =
  effectiveType :: "string option"
  type' :: "string option"

record Navigator =
  userAgent :: string
  connection :: "NetworkInformation option"
  mozConnection :: "NetworkInformation option"

section \<open>The modal (VideoPlaybackModal.tsx)\<close>

record ContentItem =
  id' :: string
  user_id :: string
  title :: string
  creator :: string
  description :: "string option"
  thumbnail_url :: string
  content_url :: string
  duration :: "string option"
  like_count :: int
  views_count :: "int option"
  content_type :: string

text \<open>
  The properties the modal passes to the player. The two callbacks are kept as flags that
  say whether the property is given; the modal gives \<open>onDurationChange\<close> only.
\<close>

record MuxPlayerProps =
  playback_id :: string
  poster :: "string option"
  video_title :: "string option"
  has_onDurationChange :: bool
  has_onViewTracked :: bool

datatype player_section = MuxPlayerElement MuxPlayerProps | UnableToExtract string

text \<open>
  \<open>getPlaybackId\<close>, return by return; the argument is \<open>content.content_url\<close>.
\<close>

definition getPlaybackId :: "string \<Rightarrow> string" where
  "getPlaybackId contentUrl =
     (if contentUrl = [] then []
      else if str_includes contentUrl ''stream.mux.com''
        then (case match_mux contentUrl of Some g \<Rightarrow> g | None \<Rightarrow> [])
      else if \<not> str_includes contentUrl ''://'' then contentUrl
      else [])"

text \<open>
  Following the specification's words, not the code: the trailing path segment of a URL,
  which is what follows its last \<open>/\<close>. It serves to compare \<open>getPlaybackId\<close> with the
  identifier the specification names.
\<close>

definition spec_trailing_path_segment :: "string \<Rightarrow> string" where
  "spec_trailing_path_segment url = rev (takeWhile (\<lambda>c. c \<noteq> CHR ''/'') (rev url))"

text \<open>
  What the modal renders in its player section: nothing when it is closed or has no
  content, the player when the playback identifier is a non-empty string, and the message
  otherwise.
\<close>

definition VideoPlaybackModal :: "bool \<Rightarrow> ContentItem option \<Rightarrow> player_section option" where
  "VideoPlaybackModal isOpen content =
     (if \<not> isOpen then None
      else (case content of
              None \<Rightarrow> None
            | Some c \<Rightarrow>
                (let playbackId = getPlaybackId (content_url c)
                 in if playbackId \<noteq> []
                    then Some (MuxPlayerElement
                           \<lparr>playback_id = playbackId, poster = Some (thumbnail_url c),
                            video_title = Some (title c), has_onDurationChange = True,
                            has_onViewTracked = False\<rparr>)
                    else Some (UnableToExtract ''Unable to extract Mux playback ID from URL''))))"

text \<open>The modal's \<open>isMobile\<close> and the class of its panel, which depends on it.\<close>

definition modal_isMobile :: "Navigator \<Rightarrow> bool" where
  "modal_isMobile navigator = test_mobile (userAgent navigator)"

definition modal_className :: "bool \<Rightarrow> string" where
  "modal_className isMobile =
     ''glass-effect '' @ (if isMobile then ''rounded-none'' else ''rounded-2xl'') @ '' w-full ''
       @ (if isMobile then ''h-full'' else ''max-w-5xl max-h-[90vh]'')"

section \<open>Playback configuration of the player (MuxPlayer.tsx)\<close>

text \<open>
  The component keeps \<open>networkConnection\<close> as a string of the union type
  \<open>'4g' | '3g' | '2g' | 'slow-2g' | 'unknown'\<close>. The union is a compile-time annotation
  only: the value is written by a cast from whatever the browser reports, so the model
  keeps it as a string. \<open>isMobile\<close> is the boolean state of the component.
\<close>

type_synonym NetworkConnection = string

definition NetworkConnection_values :: "NetworkConnection list" where
  "NetworkConnection_values = [''4g'', ''3g'', ''2g'', ''slow-2g'', ''unknown'']"

datatype preload = Auto | Metadata | NoPreload

text \<open>\<open>checkMobile\<close>: the value it stores in \<open>isMobile\<close>.\<close>

definition checkMobile :: "Navigator \<Rightarrow> int \<Rightarrow> bool" where
  "checkMobile navigator innerWidth = (test_mobile (userAgent navigator) \<or> innerWidth \<le> 768)"

text \<open>
  \<open>detectNetwork\<close>: the value of \<open>networkConnection\<close> after the call, given the value
  before it. \<open>or_unknown v\<close> is \<open>v || 'unknown'\<close>: \<open>undefined\<close> and the empty string are
  falsy. With neither object the state is left as it was; it starts as \<open>'unknown'\<close>.
\<close>

definition or_unknown :: "string option \<Rightarrow> string" where
  "or_unknown v = (case v of None \<Rightarrow> ''unknown'' | Some t \<Rightarrow> if t = [] then ''unknown'' else t)"

definition detectNetwork :: "Navigator \<Rightarrow> NetworkConnection \<Rightarrow> NetworkConnection" where
  "detectNetwork navigator networkConnection =
     (case connection navigator of
        Some c \<Rightarrow> or_unknown (effectiveType c)
      | None \<Rightarrow>
          (case mozConnection navigator of
             Some c \<Rightarrow> or_unknown (type' c)
           | None \<Rightarrow> networkConnection))"

text \<open>The \<open>switch\<close> of \<open>getOptimalMaxResolution\<close>, case by case, with its default.\<close>

definition getOptimalMaxResolution :: "NetworkConnection \<Rightarrow> bool \<Rightarrow> string" where
  "getOptimalMaxResolution networkConnection isMobile =
     (if networkConnection = ''slow-2g'' \<or> networkConnection = ''2g'' then ''480p''
      else if networkConnection = ''3g'' then ''720p''
      else if networkConnection = ''4g'' then ''1080p''
      else if isMobile then ''720p'' else ''1080p'')"

text \<open>The three returns of \<open>getPreloadStrategy\<close>, in the order of the source.\<close>

definition getPreloadStrategy :: "NetworkConnection \<Rightarrow> bool \<Rightarrow> preload" where
  "getPreloadStrategy networkConnection isMobile =
     (if isMobile \<and> (networkConnection = ''slow-2g'' \<or> networkConnection = ''2g'') then Metadata
      else if isMobile then Metadata
      else Auto)"

section \<open>The double-click handler of the player and its timer\<close>

text \<open>
  The handler acts on the browser's timer queue, on the console and on the fullscreen
  interface, so the model carries them with the two references of the component:
  \<^item> \<open>now\<close> is the clock in milliseconds, \<open>timers\<close> the pending timers (handle, due time,
    callback) and \<open>lastHandle\<close> the last handle handed out; handles are positive, as in a
    browser, so a stored handle is truthy;
  \<^item> \<open>fired\<close> lists the handles of the timers whose callback has run;
  \<^item> \<open>doubleClickTimeoutRef\<close> and \<open>containerRef\<close> are the references (\<open>None\<close> and
    \<open>False\<close> for \<open>null\<close>); \<open>scriptTimer\<close> is the handle that the cleanup of the
    script-check effect holds;
  \<^item> \<open>toggles\<close> lists the optional calls \<open>requestFullscreen?.()\<close> and
    \<open>exitFullscreen?.()\<close> evaluated so far, each with the promise the call returned
    (\<open>None\<close> when the method is not defined and \<open>?.\<close> skips the call and the
    \<open>.catch\<close> after it);
  \<^item> \<open>console_warn\<close> lists the warnings, and \<open>unhandledRejections\<close> the rejections of
    promises that no handler took.
  A \<open>fullscreen_api\<close> is what the handler finds when it runs: whether
  \<open>document.fullscreenElement\<close> is set, and how each of the two methods answers.
\<close>

datatype fs_action = RequestFullscreen | ExitFullscreen

datatype promise = Fulfilled | Rejected string

record fullscreen_api =
  fullscreenElement :: bool
  requestFullscreen :: "promise option"
  exitFullscreen :: "promise option"

datatype timer_callback = ResetDoubleClick | ScriptReady

type_synonym timer = "nat \<times> nat \<times> timer_callback"

record gesture =
  now :: nat
  lastHandle :: nat
  timers :: "timer list"
  fired :: "nat list"
  doubleClickTimeoutRef :: "nat option"
  scriptTimer :: "nat option"
  containerRef :: bool
  toggles :: "(fs_action \<times> promise option) list"
  console_warn :: "(string \<times> string) list"
  unhandledRejections :: "string list"

text \<open>\<open>setTimeout\<close> and \<open>clearTimeout\<close> of the browser.\<close>

definition setTimeout :: "timer_callback \<Rightarrow> nat \<Rightarrow> gesture \<Rightarrow> nat \<times> gesture" where
  "setTimeout cb delay s =
     (let h = Suc (lastHandle s)
      in (h, s\<lparr>lastHandle := h, timers := timers s @ [(h, now s + delay, cb)]\<rparr>))"

definition clearTimeout :: "nat \<Rightarrow> gesture \<Rightarrow> gesture" where
  "clearTimeout h s = s\<lparr>timers := filter (\<lambda>(h', due, cb). h' \<noteq> h) (timers s)\<rparr>"

text \<open>
  The two timer callbacks of the component: the one of the double-click timer sets the
  reference to \<open>null\<close>, the one of the script check does nothing.
\<close>

definition run_callback :: "timer \<Rightarrow> gesture \<Rightarrow> gesture" where
  "run_callback t s =
     (case t of (h, due, cb) \<Rightarrow>
        (case cb of
           ResetDoubleClick \<Rightarrow> s\<lparr>fired := fired s @ [h], doubleClickTimeoutRef := None\<rparr>
         | ScriptReady \<Rightarrow> s\<lparr>fired := fired s @ [h]\<rparr>))"

text \<open>
  The clock moves on by \<open>d\<close> milliseconds: the timers that are due by then run, earliest
  first, and leave the queue.
\<close>

definition advance :: "nat \<Rightarrow> gesture \<Rightarrow> gesture" where
  "advance d s =
     (let t = now s + d;
          due_now = sort_key (\<lambda>(h, due, cb). due) (filter (\<lambda>(h, due, cb). due \<le> t) (timers s));
          later = filter (\<lambda>(h, due, cb). t < due) (timers s)
      in fold run_callback due_now (s\<lparr>now := t, timers := later\<rparr>))"

text \<open>
  \<open>catch_warn label p\<close> is \<open>p.catch(err => console.warn(label, err))\<close>: the promise it
  returns is fulfilled, and a rejection of \<open>p\<close> is logged. \<open>discard\<close> is the end of the
  expression statement: a promise that is still rejected there is an unhandled rejection.
  \<open>optional_call_catch\<close> is the whole statement \<open>method?.().catch(...)\<close>.
\<close>

definition catch_warn :: "string \<Rightarrow> promise \<Rightarrow> gesture \<Rightarrow> promise \<times> gesture" where
  "catch_warn label p s =
     (case p of
        Fulfilled \<Rightarrow> (Fulfilled, s)
      | Rejected err \<Rightarrow> (Fulfilled, s\<lparr>console_warn := console_warn s @ [(label, err)]\<rparr>))"

definition discard :: "promise option \<Rightarrow> gesture \<Rightarrow> gesture" where
  "discard v s =
     (case v of
        None \<Rightarrow> s
      | Some Fulfilled \<Rightarrow> s
      | Some (Rejected err) \<Rightarrow> s\<lparr>unhandledRejections := unhandledRejections s @ [err]\<rparr>)"

definition optional_call_catch ::
  "fs_action \<Rightarrow> promise option \<Rightarrow> string \<Rightarrow> gesture \<Rightarrow> gesture" where
  "optional_call_catch action method label s =
     (let s1 = s\<lparr>toggles := toggles s @ [(action, method)]\<rparr>
      in case method of
           None \<Rightarrow> discard None s1
         | Some p \<Rightarrow> (case catch_warn label p s1 of (p', s2) \<Rightarrow> discard (Some p') s2))"

text \<open>
  \<open>handlePlayerDoubleClick\<close>, branch by branch. The component binds it to the
  \<open>onDoubleClick\<close> property of the container, so one run of the handler is one
  \<open>dblclick\<close> event of the container, which is one double tap of the user.
\<close>

definition truthy :: "nat option \<Rightarrow> bool" where
  "truthy v = (case v of None \<Rightarrow> False | Some h \<Rightarrow> h \<noteq> 0)"

definition handlePlayerDoubleClick :: "fullscreen_api \<Rightarrow> gesture \<Rightarrow> gesture" where
  "handlePlayerDoubleClick document s =
     (if \<not> containerRef s then s
      else if truthy (doubleClickTimeoutRef s) then
        (case doubleClickTimeoutRef s of
           None \<Rightarrow> s
         | Some h \<Rightarrow>
             (let s1 = (clearTimeout h s)\<lparr>doubleClickTimeoutRef := None\<rparr>
              in if \<not> fullscreenElement document
                 then optional_call_catch RequestFullscreen (requestFullscreen document)
                        ''Fullscreen request failed:'' s1
                 else optional_call_catch ExitFullscreen (exitFullscreen document)
                        ''Exit fullscreen failed:'' s1))
      else (case setTimeout ResetDoubleClick 300 s of
              (h, s1) \<Rightarrow> s1\<lparr>doubleClickTimeoutRef := Some h\<rparr>))"

text \<open>
  Mounting runs the effects: the script-check effect sets a timer of 100 ms when
  \<open>window.MuxPlayer\<close> is not defined yet. Unmounting runs the cleanups of the effects:
  they remove the listeners and clear the script-check timer, and React sets the
  container reference to \<open>null\<close>. No cleanup names \<open>doubleClickTimeoutRef\<close>.
\<close>

definition mount :: "bool \<Rightarrow> gesture" where
  "mount muxPlayerDefined =
     (let s = \<lparr>now = 0, lastHandle = 0, timers = [], fired = [], doubleClickTimeoutRef = None,
               scriptTimer = None, containerRef = True, toggles = [], console_warn = [],
               unhandledRejections = []\<rparr>
      in if muxPlayerDefined then s
         else (case setTimeout ScriptReady 100 s of (h, s1) \<Rightarrow> s1\<lparr>scriptTimer := Some h\<rparr>))"

definition unmount :: "gesture \<Rightarrow> gesture" where
  "unmount s =
     (let s1 = (case scriptTimer s of None \<Rightarrow> s | Some h \<Rightarrow> clearTimeout h s)
      in s1\<lparr>containerRef := False\<rparr>)"

text \<open>
  The two states of the detector: in \<open>Idle\<close> no double-click timer is pending and the
  reference is \<open>null\<close>; in \<open>ArmedWaiting\<close> the reference holds the handle of the one
  pending double-click timer, which is not due yet.
\<close>

definition pending_resets :: "gesture \<Rightarrow> timer list" where
  "pending_resets s = filter (\<lambda>(h, due, cb). cb = ResetDoubleClick) (timers s)"

definition Idle :: "gesture \<Rightarrow> bool" where
  "Idle s = (doubleClickTimeoutRef s = None \<and> pending_resets s = [])"

definition ArmedWaiting :: "gesture \<Rightarrow> bool" where
  "ArmedWaiting s =
     (case doubleClickTimeoutRef s of
        None \<Rightarrow> False
      | Some h \<Rightarrow> h \<noteq> 0 \<and>
          (case pending_resets s of
             [(h', due, cb)] \<Rightarrow> h' = h \<and> now s < due
           | _ \<Rightarrow> False))"

text \<open>
  Traces of the component under a clock that the trace itself moves. The container has one
  mouse handler, \<open>onDoubleClick={handlePlayerDoubleClick}\<close>: a \<open>dblclick\<close> event runs
  the handler, a \<open>click\<close> event runs nothing of the component.
\<close>

datatype gesture_event = Click | DblClick fullscreen_api | Wait nat | Unmount

fun step :: "gesture_event \<Rightarrow> gesture \<Rightarrow> gesture" where
  "step Click s = s"
| "step (DblClick document) s = handlePlayerDoubleClick document s"
| "step (Wait d) s = advance d s"
| "step Unmount s = unmount s"

fun replay :: "gesture_event list \<Rightarrow> gesture \<Rightarrow> gesture" where
  "replay [] s = s"
| "replay (e # es) s = replay es (step e s)"

text \<open>
  The events a browser delivers to the container for one, two and three taps in quick
  succession, \<open>d\<close> milliseconds apart: a \<open>click\<close> for every tap, and one \<open>dblclick\<close>
  after the second \<open>click\<close>. The \<open>fullscreen_api\<close> is what the handler finds when the
  \<open>dblclick\<close> runs it.
\<close>

definition single_tap :: "gesture_event list" where
  "single_tap = [Click]"

definition double_tap :: "nat \<Rightarrow> fullscreen_api \<Rightarrow> gesture_event list" where
  "double_tap d document = [Click, Wait d, Click, DblClick document]"

definition triple_tap :: "nat \<Rightarrow> nat \<Rightarrow> fullscreen_api \<Rightarrow> gesture_event list" where
  "triple_tap d1 d2 document = [Click, Wait d1, Click, DblClick document, Wait d2, Click]"

text \<open>
  The toggle that a completed pair evaluates for a given \<open>fullscreen_api\<close>, and the
  warning it logs.
\<close>

definition toggle_of :: "fullscreen_api \<Rightarrow> fs_action \<times> promise option" where
  "toggle_of document =
     (if fullscreenElement document then (ExitFullscreen, exitFullscreen document)
      else (RequestFullscreen, requestFullscreen document))"

definition warning_of :: "fullscreen_api \<Rightarrow> (string \<times> string) list" where
  "warning_of document =
     (if fullscreenElement document
      then (case exitFullscreen document of
              Some (Rejected err) \<Rightarrow> [(''Exit fullscreen failed:'', err)] | _ \<Rightarrow> [])
      else (case requestFullscreen document of
              Some (Rejected err) \<Rightarrow> [(''Fullscreen request failed:'', err)] | _ \<Rightarrow> []))"

section \<open>View tracking of the player\<close>

text \<open>
  \<open>hasTrackedView\<close> is React state; \<open>handlePlay\<close> is a closure made by the effect whose
  dependency list is \<open>[onDurationChange, onViewTracked, hasTrackedView]\<close>, so it reads the
  value of \<open>hasTrackedView\<close> of the render that registered it
  (\<open>listener_hasTrackedView\<close>). \<open>resubscribe\<close> is the re-run of that effect after a
  render: the old listeners are removed and new closures registered. \<open>dispatch\<close> delivers
  one player event: the handler runs, then React commits the render and re-runs the effect
  before the next event. The first argument of \<open>handlePlay\<close> says whether the optional
  property \<open>onViewTracked\<close> is given.
\<close>

record session =
  isPlaying :: bool
  hasTrackedView :: bool
  listener_hasTrackedView :: bool
  onViewTracked_calls :: nat

datatype player_event = Play | Pause

definition handlePlay :: "bool \<Rightarrow> session \<Rightarrow> session" where
  "handlePlay onViewTracked s =
     (let s1 = s\<lparr>isPlaying := True\<rparr>
      in if \<not> listener_hasTrackedView s1 \<and> onViewTracked
         then s1\<lparr>hasTrackedView := True, onViewTracked_calls := Suc (onViewTracked_calls s1)\<rparr>
         else s1)"

definition handlePause :: "session \<Rightarrow> session" where
  "handlePause s = s\<lparr>isPlaying := False\<rparr>"

definition resubscribe :: "session \<Rightarrow> session" where
  "resubscribe s = s\<lparr>listener_hasTrackedView := hasTrackedView s\<rparr>"

fun dispatch :: "bool \<Rightarrow> player_event \<Rightarrow> session \<Rightarrow> session" where
  "dispatch onViewTracked Play s = resubscribe (handlePlay onViewTracked s)"
| "dispatch onViewTracked Pause s = resubscribe (handlePause s)"

fun deliver :: "bool \<Rightarrow> player_event list \<Rightarrow> session \<Rightarrow> session" where
  "deliver onViewTracked [] s = s"
| "deliver onViewTracked (e # es) s = deliver onViewTracked es (dispatch onViewTracked e s)"

definition session_mount :: session where
  "session_mount = resubscribe
     \<lparr>isPlaying = False, hasTrackedView = False, listener_hasTrackedView = False,
      onViewTracked_calls = 0\<rparr>"

section \<open>Facts about the string functions\<close>

lemma startsWith_iff: "startsWith s p \<longleftrightarrow> (\<exists>post. s = p @ post)"
  by (induction s p rule: startsWith.induct) auto

lemma includes_iff: "str_includes s p \<longleftrightarrow> (\<exists>pre post. s = pre @ p @ post)"
proof (induction s)
  case Nil
  then show ?case by (auto simp: startsWith_iff)
next
  case (Cons c cs)
  show ?case
  proof
    assume "str_includes (c # cs) p"
    then consider "startsWith (c # cs) p" | "str_includes cs p" by auto
    then show "\<exists>pre post. c # cs = pre @ p @ post"
    proof cases
      case 1
      then obtain post where "c # cs = p @ post" by (auto simp: startsWith_iff)
      then have "c # cs = [] @ p @ post" by simp
      then show ?thesis by blast
    next
      case 2
      then obtain pre post where "cs = pre @ p @ post" using Cons.IH by blast
      then have "c # cs = (c # pre) @ p @ post" by simp
      then show ?thesis by blast
    qed
  next
    assume "\<exists>pre post. c # cs = pre @ p @ post"
    then obtain pre post where e: "c # cs = pre @ p @ post" by blast
    show "str_includes (c # cs) p"
    proof (cases pre)
      case Nil
      with e have "startsWith (c # cs) p" by (auto simp: startsWith_iff)
      then show ?thesis by simp
    next
      case (Cons a pre')
      with e have "cs = pre' @ p @ post" by simp
      then have "str_includes cs p" using Cons.IH by blast
      then show ?thesis by simp
    qed
  qed
qed


lemma match_here_Some:
  "match_here s = Some g \<longleftrightarrow>
     g \<noteq> [] \<and> (\<exists>rest. s = ''stream.mux.com/'' @ rest \<and> g = takeWhile isAlnum rest)"
  unfolding match_here_def
  by (auto simp: startsWith_iff split: list.splits)

lemma match_mux_sound:
  "match_mux s = Some g \<Longrightarrow>
     g \<noteq> [] \<and> (\<exists>pre rest. s = pre @ ''stream.mux.com/'' @ rest \<and> g = takeWhile isAlnum rest)"
proof (induction s)
  case Nil
  then show ?case by (simp add: match_here_def)
next
  case (Cons c cs)
  show ?case
  proof (cases "match_here (c # cs)")
    case None
    with Cons.prems have "match_mux cs = Some g" by simp
    then obtain pre rest where g: "g \<noteq> []" and
      e: "cs = pre @ ''stream.mux.com/'' @ rest" "g = takeWhile isAlnum rest"
      using Cons.IH by blast
    from e have "c # cs = (c # pre) @ ''stream.mux.com/'' @ rest" by simp
    with g e(2) show ?thesis by blast
  next
    case (Some g')
    with Cons.prems have "g' = g" by simp
    with Some obtain rest where "g \<noteq> []" "c # cs = ''stream.mux.com/'' @ rest"
      "g = takeWhile isAlnum rest"
      unfolding match_here_Some by blast
    then have "c # cs = [] @ ''stream.mux.com/'' @ rest" by simp
    with \<open>g \<noteq> []\<close> \<open>g = takeWhile isAlnum rest\<close> show ?thesis by blast
  qed
qed

lemma match_mux_includes_host:
  assumes "match_mux s = Some g"
  shows "str_includes s ''stream.mux.com''"
proof -
  from match_mux_sound [OF assms] obtain pre rest where
    "s = pre @ ''stream.mux.com/'' @ rest" by blast
  then have "s = pre @ ''stream.mux.com'' @ (CHR ''/'' # rest)" by simp
  then show ?thesis unfolding includes_iff by blast
qed

lemma match_mux_nonempty: "match_mux s = Some g \<Longrightarrow> s \<noteq> []"
  by (cases s) (auto simp: match_here_def)

lemma match_here_None:
  "match_here s = None \<longleftrightarrow>
     (\<forall>rest. s = ''stream.mux.com/'' @ rest \<longrightarrow> takeWhile isAlnum rest = [])"
  unfolding match_here_def
  by (auto simp: startsWith_iff split: list.splits)

lemma match_mux_None:
  "match_mux s = None \<longleftrightarrow>
     (\<forall>pre rest. s = pre @ ''stream.mux.com/'' @ rest \<longrightarrow> takeWhile isAlnum rest = [])"
proof (induction s)
  case Nil
  show ?case by (simp add: match_here_def)
next
  case (Cons c cs)
  have split: "(\<forall>pre rest. c # cs = pre @ ''stream.mux.com/'' @ rest \<longrightarrow> takeWhile isAlnum rest = [])
      \<longleftrightarrow> (\<forall>rest. c # cs = ''stream.mux.com/'' @ rest \<longrightarrow> takeWhile isAlnum rest = [])
        \<and> (\<forall>pre rest. cs = pre @ ''stream.mux.com/'' @ rest \<longrightarrow> takeWhile isAlnum rest = [])"
    (is "?A \<longleftrightarrow> ?B \<and> ?C")
  proof (intro iffI conjI allI impI)
    fix rest assume ?A and "c # cs = ''stream.mux.com/'' @ rest"
    then have "c # cs = [] @ ''stream.mux.com/'' @ rest" by simp
    with \<open>?A\<close> show "takeWhile isAlnum rest = []" by blast
  next
    fix pre rest assume ?A and "cs = pre @ ''stream.mux.com/'' @ rest"
    then have "c # cs = (c # pre) @ ''stream.mux.com/'' @ rest" by simp
    with \<open>?A\<close> show "takeWhile isAlnum rest = []" by blast
  next
    fix pre rest assume bc: "?B \<and> ?C" and e: "c # cs = pre @ ''stream.mux.com/'' @ rest"
    show "takeWhile isAlnum rest = []"
    proof (cases pre)
      case Nil
      with e bc show ?thesis by simp
    next
      case (Cons a pre')
      with e have "cs = pre' @ ''stream.mux.com/'' @ rest" by simp
      with bc show ?thesis by blast
    qed
  qed
  have "match_mux (c # cs) = None \<longleftrightarrow> match_here (c # cs) = None \<and> match_mux cs = None"
    by (simp split: option.splits)
  then show ?case unfolding split Cons.IH match_here_None .
qed

lemma match_mux_complete:
  assumes "s = pre @ ''stream.mux.com/'' @ rest" and "takeWhile isAlnum rest \<noteq> []"
  shows "\<exists>g. match_mux s = Some g"
proof (cases "match_mux s")
  case None
  with assms show ?thesis unfolding match_mux_None by blast
next
  case (Some g)
  then show ?thesis by blast
qed

lemma match_mux_leftmost:
  "match_mux s = Some g \<Longrightarrow>
     \<exists>pre rest. s = pre @ ''stream.mux.com/'' @ rest \<and> g = takeWhile isAlnum rest \<and> g \<noteq> []
       \<and> (\<forall>pre' rest'. s = pre' @ ''stream.mux.com/'' @ rest' \<and> length pre' < length pre
             \<longrightarrow> takeWhile isAlnum rest' = [])"
proof (induction s)
  case Nil
  then show ?case by (simp add: match_here_def)
next
  case (Cons c cs)
  show ?case
  proof (cases "match_here (c # cs)")
    case (Some g')
    with Cons.prems have "g' = g" by simp
    with Some obtain rest where "g \<noteq> []" "c # cs = [] @ ''stream.mux.com/'' @ rest"
      "g = takeWhile isAlnum rest"
      unfolding match_here_Some by auto
    then show ?thesis by (intro exI [of _ "[]"] exI [of _ rest]) simp
  next
    case None
    with Cons.prems have "match_mux cs = Some g" by simp
    from Cons.IH [OF this] obtain pre rest where
      e: "cs = pre @ ''stream.mux.com/'' @ rest" and g: "g = takeWhile isAlnum rest" "g \<noteq> []"
      and l: "\<forall>pre' rest'. cs = pre' @ ''stream.mux.com/'' @ rest' \<and> length pre' < length pre
             \<longrightarrow> takeWhile isAlnum rest' = []"
      by blast
    have "\<forall>pre' rest'. c # cs = pre' @ ''stream.mux.com/'' @ rest' \<and> length pre' < length (c # pre)
             \<longrightarrow> takeWhile isAlnum rest' = []"
    proof (intro allI impI)
      fix pre' rest'
      assume a: "c # cs = pre' @ ''stream.mux.com/'' @ rest' \<and> length pre' < length (c # pre)"
      show "takeWhile isAlnum rest' = []"
      proof (cases pre')
        case Nil
        with a None show ?thesis unfolding match_here_None by simp
      next
        case (Cons a' p'')
        with a have "cs = p'' @ ''stream.mux.com/'' @ rest'" "length p'' < length pre" by simp_all
        with l show ?thesis by blast
      qed
    qed
    moreover from e have "c # cs = (c # pre) @ ''stream.mux.com/'' @ rest" by simp
    ultimately show ?thesis using g by blast
  qed
qed

lemma leftmost_unique:
  assumes "s = pre @ w @ rest" and "s = pre' @ w @ rest'" and "length pre = length pre'"
  shows "pre = pre' \<and> rest = rest'"
  using assms by (metis append_eq_append_conv same_append_eq)

lemma getPlaybackId_match:
  assumes u: "url = pre @ ''stream.mux.com/'' @ rest" and r: "takeWhile isAlnum rest \<noteq> []"
    and l: "\<forall>pre' rest'. url = pre' @ ''stream.mux.com/'' @ rest' \<and> length pre' < length pre
             \<longrightarrow> takeWhile isAlnum rest' = []"
  shows "getPlaybackId url = takeWhile isAlnum rest"
proof -
  from match_mux_complete [OF u r] obtain g where m: "match_mux url = Some g" by blast
  from match_mux_leftmost [OF m] obtain p0 r0 where
    u0: "url = p0 @ ''stream.mux.com/'' @ r0" and g: "g = takeWhile isAlnum r0" "g \<noteq> []"
    and l0: "\<forall>pre' rest'. url = pre' @ ''stream.mux.com/'' @ rest' \<and> length pre' < length p0
             \<longrightarrow> takeWhile isAlnum rest' = []"
    by blast
  have "\<not> length pre < length p0" using l0 u r by blast
  moreover have "\<not> length p0 < length pre" using l u0 g by blast
  ultimately have "length pre = length p0" by simp
  with leftmost_unique [OF u u0] have "rest = r0" by simp
  with g have "g = takeWhile isAlnum rest" by simp
  moreover have "getPlaybackId url = g"
    using m match_mux_includes_host [OF m] match_mux_nonempty [OF m]
    by (simp add: getPlaybackId_def)
  ultimately show ?thesis by simp
qed

section \<open>The playback identifier\<close>

text \<open>
  C3, as the code has it. The conditions are stated on the string itself: \<open>w\<close> occurs in
  \<open>url\<close> when \<open>url = pre @ w @ post\<close>, and the pattern matches at \<open>pre\<close> when
  \<open>url = pre @ ''stream.mux.com/'' @ rest\<close> and \<open>rest\<close> starts with a letter or digit.
  \<^item> When the pattern matches somewhere, it matches at a leftmost place, and the identifier
    is the run of letters and digits at that place: the first run after the host, which
    is non-empty.
  \<^item> When the host name occurs and the pattern matches nowhere, the identifier is empty.
  \<^item> When neither the host name nor \<open>://\<close> occurs, the identifier is the whole string.
  \<^item> When \<open>://\<close> occurs and the host name does not, the identifier is empty.
  \<^item> The open modal shows the message in place of the player exactly when the identifier
    is empty.
\<close>

theorem getPlaybackId_cases:
  "((\<exists>pre rest. url = pre @ ''stream.mux.com/'' @ rest \<and> takeWhile isAlnum rest \<noteq> []) \<longrightarrow>
      (\<exists>pre rest. url = pre @ ''stream.mux.com/'' @ rest \<and> takeWhile isAlnum rest \<noteq> []
         \<and> (\<forall>pre' rest'. url = pre' @ ''stream.mux.com/'' @ rest' \<and> length pre' < length pre
               \<longrightarrow> takeWhile isAlnum rest' = [])
         \<and> getPlaybackId url = takeWhile isAlnum rest))
   \<and> (url = p @ ''stream.mux.com/'' @ r \<and> takeWhile isAlnum r \<noteq> []
        \<and> (\<forall>pre' rest'. url = pre' @ ''stream.mux.com/'' @ rest' \<and> length pre' < length p
              \<longrightarrow> takeWhile isAlnum rest' = [])
        \<longrightarrow> getPlaybackId url = takeWhile isAlnum r)
   \<and> ((\<exists>pre post. url = pre @ ''stream.mux.com'' @ post)
        \<and> (\<forall>pre rest. url = pre @ ''stream.mux.com/'' @ rest \<longrightarrow> takeWhile isAlnum rest = [])
        \<longrightarrow> getPlaybackId url = [])
   \<and> (\<not> (\<exists>pre post. url = pre @ ''stream.mux.com'' @ post)
        \<and> \<not> (\<exists>pre post. url = pre @ ''://'' @ post)
        \<longrightarrow> getPlaybackId url = url)
   \<and> (\<not> (\<exists>pre post. url = pre @ ''stream.mux.com'' @ post)
        \<and> (\<exists>pre post. url = pre @ ''://'' @ post)
        \<longrightarrow> getPlaybackId url = [])
   \<and> VideoPlaybackModal True (Some c) =
        (if getPlaybackId (content_url c) = []
         then Some (UnableToExtract ''Unable to extract Mux playback ID from URL'')
         else Some (MuxPlayerElement
                \<lparr>playback_id = getPlaybackId (content_url c), poster = Some (thumbnail_url c),
                 video_title = Some (title c), has_onDurationChange = True,
                 has_onViewTracked = False\<rparr>))"
proof (intro conjI impI)
  assume "\<exists>pre rest. url = pre @ ''stream.mux.com/'' @ rest \<and> takeWhile isAlnum rest \<noteq> []"
  then obtain pre rest where u: "url = pre @ ''stream.mux.com/'' @ rest"
    and r: "takeWhile isAlnum rest \<noteq> []"
    by blast
  from match_mux_complete [OF u r] obtain g where m: "match_mux url = Some g" by blast
  from match_mux_leftmost [OF m] obtain p0 r0 where
    u0: "url = p0 @ ''stream.mux.com/'' @ r0" and g: "g = takeWhile isAlnum r0" "g \<noteq> []"
    and l0: "\<forall>pre' rest'. url = pre' @ ''stream.mux.com/'' @ rest' \<and> length pre' < length p0
             \<longrightarrow> takeWhile isAlnum rest' = []"
    by blast
  from g have r0: "takeWhile isAlnum r0 \<noteq> []" by simp
  from getPlaybackId_match [OF u0 r0 l0] u0 r0 l0
  show "\<exists>pre rest. url = pre @ ''stream.mux.com/'' @ rest \<and> takeWhile isAlnum rest \<noteq> []
         \<and> (\<forall>pre' rest'. url = pre' @ ''stream.mux.com/'' @ rest' \<and> length pre' < length pre
               \<longrightarrow> takeWhile isAlnum rest' = [])
         \<and> getPlaybackId url = takeWhile isAlnum rest"
    by blast
next
  assume "url = p @ ''stream.mux.com/'' @ r \<and> takeWhile isAlnum r \<noteq> []
        \<and> (\<forall>pre' rest'. url = pre' @ ''stream.mux.com/'' @ rest' \<and> length pre' < length p
              \<longrightarrow> takeWhile isAlnum rest' = [])"
  then show "getPlaybackId url = takeWhile isAlnum r"
    using getPlaybackId_match [of url p r] by blast
next
  assume "(\<exists>pre post. url = pre @ ''stream.mux.com'' @ post)
        \<and> (\<forall>pre rest. url = pre @ ''stream.mux.com/'' @ rest \<longrightarrow> takeWhile isAlnum rest = [])"
  then have "str_includes url ''stream.mux.com''" and "match_mux url = None"
    unfolding includes_iff match_mux_None by blast+
  then show "getPlaybackId url = []" by (simp add: getPlaybackId_def)
next
  assume "\<not> (\<exists>pre post. url = pre @ ''stream.mux.com'' @ post)
        \<and> \<not> (\<exists>pre post. url = pre @ ''://'' @ post)"
  then have "\<not> str_includes url ''stream.mux.com''" and "\<not> str_includes url ''://''"
    unfolding includes_iff by blast+
  then show "getPlaybackId url = url" by (simp add: getPlaybackId_def)
next
  assume "\<not> (\<exists>pre post. url = pre @ ''stream.mux.com'' @ post)
        \<and> (\<exists>pre post. url = pre @ ''://'' @ post)"
  then have "\<not> str_includes url ''stream.mux.com''" and "str_includes url ''://''"
    unfolding includes_iff by blast+
  then show "getPlaybackId url = []" by (simp add: getPlaybackId_def)
next
  show "VideoPlaybackModal True (Some c) =
        (if getPlaybackId (content_url c) = []
         then Some (UnableToExtract ''Unable to extract Mux playback ID from URL'')
         else Some (MuxPlayerElement
                \<lparr>playback_id = getPlaybackId (content_url c), poster = Some (thumbnail_url c),
                 video_title = Some (title c), has_onDurationChange = True,
                 has_onViewTracked = False\<rparr>))"
    by (simp add: VideoPlaybackModal_def Let_def)
qed

theorem getPlaybackId_cases_witness:
  "''https://stream.mux.com/abc123.m3u8'' = ''https://'' @ ''stream.mux.com/'' @ ''abc123.m3u8''
   \<and> takeWhile isAlnum ''abc123.m3u8'' = ''abc123''
   \<and> getPlaybackId ''https://stream.mux.com/abc123.m3u8'' = ''abc123''
   \<and> str_includes ''stream.mux.com/'' ''stream.mux.com''
   \<and> match_mux ''stream.mux.com/'' = None
   \<and> getPlaybackId ''stream.mux.com/'' = []
   \<and> \<not> str_includes ''abc123'' ''stream.mux.com'' \<and> \<not> str_includes ''abc123'' ''://''
   \<and> getPlaybackId ''abc123'' = ''abc123''
   \<and> \<not> str_includes ''https://unrelated.example.com/x'' ''stream.mux.com''
   \<and> str_includes ''https://unrelated.example.com/x'' ''://''
   \<and> getPlaybackId ''https://unrelated.example.com/x'' = []"
proof -
  have a: "match_mux ''https://stream.mux.com/abc123.m3u8'' = Some ''abc123''"
    by code_simp
  have a1: "''https://stream.mux.com/abc123.m3u8'' = ''https://'' @ ''stream.mux.com/'' @ ''abc123.m3u8''"
    by simp
  have a2: "takeWhile isAlnum ''abc123.m3u8'' = ''abc123''"
    by code_simp
  from match_mux_leftmost [OF a] obtain p0 r0 where
    u0: "''https://stream.mux.com/abc123.m3u8'' = p0 @ ''stream.mux.com/'' @ r0"
    and g0: "''abc123'' = takeWhile isAlnum r0"
    and l0: "\<forall>pre' rest'. ''https://stream.mux.com/abc123.m3u8'' = pre' @ ''stream.mux.com/'' @ rest'
                \<and> length pre' < length p0 \<longrightarrow> takeWhile isAlnum rest' = []"
    by blast
  from g0 have n0: "takeWhile isAlnum r0 \<noteq> []" by (metis list.distinct(1))
  from u0 n0 l0 g0 getPlaybackId_cases [of "''https://stream.mux.com/abc123.m3u8''" p0 r0]
  have 1: "getPlaybackId ''https://stream.mux.com/abc123.m3u8'' = ''abc123''" by presburger
  have b: "str_includes ''stream.mux.com/'' ''stream.mux.com''"
    "match_mux ''stream.mux.com/'' = None"
    by code_simp+
  have c: "\<not> str_includes ''abc123'' ''stream.mux.com''" "\<not> str_includes ''abc123'' ''://''"
    by code_simp+
  have d: "\<not> str_includes ''https://unrelated.example.com/x'' ''stream.mux.com''"
    "str_includes ''https://unrelated.example.com/x'' ''://''"
    by code_simp+
  from b [unfolded includes_iff match_mux_None] getPlaybackId_cases [of "''stream.mux.com/''"]
  have 2: "getPlaybackId ''stream.mux.com/'' = []" by blast
  from c [unfolded includes_iff] getPlaybackId_cases [of "''abc123''"]
  have 3: "getPlaybackId ''abc123'' = ''abc123''" by blast
  from d [unfolded includes_iff] getPlaybackId_cases [of "''https://unrelated.example.com/x''"]
  have 4: "getPlaybackId ''https://unrelated.example.com/x'' = []" by blast
  from a1 a2 b c d 1 2 3 4 show ?thesis by blast
qed

text \<open>
  C3 as the specification words it fails at two strings. It gives the trailing path
  segment whenever the pattern matches: in \<open>https://stream.mux.com/v1/abc123\<close> the pattern
  matches and the trailing path segment is \<open>abc123\<close>, but the identifier is \<open>v1\<close>, the
  first run after the host. And it gives the whole string back whenever the string does
  not match the pattern and contains no \<open>://\<close>: \<open>stream.mux.com\<close> is such a string, and
  its identifier is empty.
\<close>

theorem getPlaybackId_not_as_worded:
  "match_mux ''https://stream.mux.com/v1/abc123'' = Some ''v1''
   \<and> spec_trailing_path_segment ''https://stream.mux.com/v1/abc123'' = ''abc123''
   \<and> getPlaybackId ''https://stream.mux.com/v1/abc123'' = ''v1''
   \<and> getPlaybackId ''https://stream.mux.com/v1/abc123''
       \<noteq> spec_trailing_path_segment ''https://stream.mux.com/v1/abc123''
   \<and> str_includes ''stream.mux.com'' ''stream.mux.com''
   \<and> match_mux ''stream.mux.com'' = None
   \<and> \<not> str_includes ''stream.mux.com'' ''://''
   \<and> getPlaybackId ''stream.mux.com'' = []
   \<and> getPlaybackId ''stream.mux.com'' \<noteq> ''stream.mux.com''"
  by code_simp

section \<open>Properties of the playback configuration\<close>

text \<open>
  C1: for either device class, the tiers slow-2g and 2g give 480p, 3g gives 720p, 4g gives
  1080p, and the unknown tier gives 720p on a mobile device and 1080p on a desktop.
\<close>

theorem getOptimalMaxResolution_table:
  "getOptimalMaxResolution ''slow-2g'' isMobile = ''480p''
   \<and> getOptimalMaxResolution ''2g'' isMobile = ''480p''
   \<and> getOptimalMaxResolution ''3g'' isMobile = ''720p''
   \<and> getOptimalMaxResolution ''4g'' isMobile = ''1080p''
   \<and> getOptimalMaxResolution ''unknown'' True = ''720p''
   \<and> getOptimalMaxResolution ''unknown'' False = ''1080p''"
  by (simp add: getOptimalMaxResolution_def)

text \<open>
  C2: whatever the network tier, the preload strategy is \<open>metadata\<close> on a mobile device
  and \<open>auto\<close> on a desktop; two tiers never give different strategies on one device.
\<close>

theorem getPreloadStrategy_device_only:
  "getPreloadStrategy networkConnection True = Metadata
   \<and> getPreloadStrategy networkConnection False = Auto
   \<and> getPreloadStrategy networkConnection isMobile = getPreloadStrategy networkConnection' isMobile"
  by (simp add: getPreloadStrategy_def)

section \<open>The network tier\<close>

text \<open>
  Without a connection object \<open>detectNetwork\<close> leaves the state as it is, so the initial
  \<open>'unknown'\<close> stays; with an object whose property is missing or empty it stores
  \<open>'unknown'\<close>; with \<open>navigator.connection\<close> reporting one of the four effective types
  the stored value is one of the five values of the union.
\<close>

lemma detectNetwork_no_signal:
  "connection navigator = None \<Longrightarrow> mozConnection navigator = None \<Longrightarrow>
     detectNetwork navigator ''unknown'' = ''unknown''"
  by (simp add: detectNetwork_def)

lemma detectNetwork_no_property:
  "connection navigator = Some c \<Longrightarrow> effectiveType c = None \<or> effectiveType c = Some [] \<Longrightarrow>
     detectNetwork navigator networkConnection = ''unknown''"
  by (auto simp: detectNetwork_def or_unknown_def)

lemma detectNetwork_effectiveType:
  "connection navigator = Some c \<Longrightarrow> effectiveType c = Some t \<Longrightarrow>
     t \<in> {''slow-2g'', ''2g'', ''3g'', ''4g''} \<Longrightarrow>
     detectNetwork navigator networkConnection = t
     \<and> detectNetwork navigator networkConnection \<in> set NetworkConnection_values"
  by (auto simp: detectNetwork_def or_unknown_def NetworkConnection_values_def)

text \<open>
  C9 fails on the fallback: \<open>mozConnection.type\<close> is the kind of link (\<open>'wifi'\<close>,
  \<open>'cellular'\<close>, ...), and the component stores it in \<open>networkConnection\<close> as it is,
  so the stored value is none of the five values of the union.
\<close>

theorem detectNetwork_mozConnection_type:
  "detectNetwork
     \<lparr>userAgent = ''Mozilla/5.0 (Android; Mobile; rv:40.0) Gecko/40.0 Firefox/40.0'',
      connection = None,
      mozConnection = Some \<lparr>effectiveType = None, type' = Some ''wifi''\<rparr>\<rparr> ''unknown''
     = ''wifi''
   \<and> ''wifi'' \<notin> set NetworkConnection_values"
  by (simp add: detectNetwork_def or_unknown_def NetworkConnection_values_def)

section \<open>The device class of the two components\<close>

text \<open>
  C10: the player takes a device for mobile when the user agent matches the pattern or the
  window is at most 768 pixels wide, the modal when the user agent matches. With a desktop
  user agent in a window of 768 pixels the player is configured as on a mobile device
  (preload \<open>metadata\<close>, 720p for an unknown tier) and the modal has its desktop panel.
\<close>

theorem device_class_rules_differ:
  "checkMobile navigator innerWidth = (modal_isMobile navigator \<or> innerWidth \<le> 768)
   \<and> checkMobile \<lparr>userAgent = ''Mozilla/5.0 (Windows NT 10.0; Win64; x64)'',
                   connection = None, mozConnection = None\<rparr> 768
   \<and> \<not> modal_isMobile \<lparr>userAgent = ''Mozilla/5.0 (Windows NT 10.0; Win64; x64)'',
                          connection = None, mozConnection = None\<rparr>
   \<and> getPreloadStrategy ''unknown''
        (checkMobile \<lparr>userAgent = ''Mozilla/5.0 (Windows NT 10.0; Win64; x64)'',
                      connection = None, mozConnection = None\<rparr> 768) = Metadata
   \<and> getOptimalMaxResolution ''unknown''
        (checkMobile \<lparr>userAgent = ''Mozilla/5.0 (Windows NT 10.0; Win64; x64)'',
                      connection = None, mozConnection = None\<rparr> 768) = ''720p''
   \<and> modal_className
        (modal_isMobile \<lparr>userAgent = ''Mozilla/5.0 (Windows NT 10.0; Win64; x64)'',
                         connection = None, mozConnection = None\<rparr>)
       = ''glass-effect rounded-2xl w-full max-w-5xl max-h-[90vh]''"
proof (intro conjI)
  show "checkMobile navigator innerWidth = (modal_isMobile navigator \<or> innerWidth \<le> 768)"
    by (simp add: checkMobile_def modal_isMobile_def)
qed code_simp+

section \<open>Facts about the timer queue and the handler\<close>

lemma run_callback_simps:
  "run_callback (h, due, ResetDoubleClick) s =
     s\<lparr>fired := fired s @ [h], doubleClickTimeoutRef := None\<rparr>"
  "run_callback (h, due, ScriptReady) s = s\<lparr>fired := fired s @ [h]\<rparr>"
  by (simp_all add: run_callback_def)

lemma run_callback_frame:
  "now (run_callback t s) = now s"
  "lastHandle (run_callback t s) = lastHandle s"
  "timers (run_callback t s) = timers s"
  "scriptTimer (run_callback t s) = scriptTimer s"
  "containerRef (run_callback t s) = containerRef s"
  "toggles (run_callback t s) = toggles s"
  "console_warn (run_callback t s) = console_warn s"
  "unhandledRejections (run_callback t s) = unhandledRejections s"
  "fired (run_callback t s) = fired s @ [fst t]"
  by (simp_all add: run_callback_def split: prod.splits timer_callback.splits)

lemma fold_run_callback_frame:
  "now (fold run_callback ts s) = now s"
  "lastHandle (fold run_callback ts s) = lastHandle s"
  "timers (fold run_callback ts s) = timers s"
  "scriptTimer (fold run_callback ts s) = scriptTimer s"
  "containerRef (fold run_callback ts s) = containerRef s"
  "toggles (fold run_callback ts s) = toggles s"
  "console_warn (fold run_callback ts s) = console_warn s"
  "unhandledRejections (fold run_callback ts s) = unhandledRejections s"
  by (induction ts arbitrary: s; simp add: run_callback_frame)+

lemma fold_run_callback_fired:
  "fired (fold run_callback ts s) = fired s @ map fst ts"
  by (induction ts arbitrary: s) (simp_all add: run_callback_frame)

lemma fold_run_callback_ref:
  "doubleClickTimeoutRef (fold run_callback ts s) =
     (if filter (\<lambda>(h, due, cb). cb = ResetDoubleClick) ts = [] then doubleClickTimeoutRef s
      else None)"
proof (induction ts arbitrary: s)
  case Nil
  show ?case by simp
next
  case (Cons t ts)
  obtain h due cb where t: "t = (h, due, cb)" by (cases t)
  show ?case
    by (cases cb) (simp_all add: Cons.IH t run_callback_simps)
qed

lemma advance_frame:
  "now (advance d s) = now s + d"
  "lastHandle (advance d s) = lastHandle s"
  "scriptTimer (advance d s) = scriptTimer s"
  "containerRef (advance d s) = containerRef s"
  "toggles (advance d s) = toggles s"
  "console_warn (advance d s) = console_warn s"
  "unhandledRejections (advance d s) = unhandledRejections s"
  "timers (advance d s) = filter (\<lambda>(h, due, cb). now s + d < due) (timers s)"
  by (simp_all add: advance_def Let_def fold_run_callback_frame)

lemma advance_pending_resets:
  "pending_resets (advance d s) = filter (\<lambda>(h, due, cb). now s + d < due) (pending_resets s)"
  by (auto simp: pending_resets_def advance_frame intro: filter_cong)

lemma filter_sort_key_Nil: "filter P (sort_key f xs) = [] \<longleftrightarrow> filter P xs = []"
  by (simp add: filter_empty_conv)

lemma advance_ref:
  "doubleClickTimeoutRef (advance d s) =
     (if filter (\<lambda>(h, due, cb). due \<le> now s + d) (pending_resets s) = []
      then doubleClickTimeoutRef s else None)"
proof -
  have "filter (\<lambda>(h, due, cb). cb = ResetDoubleClick)
          (filter (\<lambda>(h, due, cb). due \<le> now s + d) (timers s))
        = filter (\<lambda>(h, due, cb). due \<le> now s + d) (pending_resets s)"
    by (auto simp: pending_resets_def intro: filter_cong)
  then show ?thesis
    by (simp add: advance_def Let_def fold_run_callback_ref filter_sort_key_Nil)
qed

lemma advance_Idle: "Idle s \<Longrightarrow> Idle (advance d s)"
  by (simp add: Idle_def advance_pending_resets advance_ref)


lemma run_when_idle:
  assumes "Idle s" and "containerRef s"
  shows "handlePlayerDoubleClick document s =
           s\<lparr>lastHandle := Suc (lastHandle s),
              timers := timers s @ [(Suc (lastHandle s), now s + 300, ResetDoubleClick)],
              doubleClickTimeoutRef := Some (Suc (lastHandle s))\<rparr>"
  using assms
  by (simp add: handlePlayerDoubleClick_def Idle_def truthy_def setTimeout_def Let_def)

lemma run_arms:
  assumes "Idle s" and "containerRef s"
  shows "ArmedWaiting (handlePlayerDoubleClick document s)"
    and "pending_resets (handlePlayerDoubleClick document s) =
           [(Suc (lastHandle s), now s + 300, ResetDoubleClick)]"
    and "now (handlePlayerDoubleClick document s) = now s"
    and "containerRef (handlePlayerDoubleClick document s)"
    and "toggles (handlePlayerDoubleClick document s) = toggles s"
    and "console_warn (handlePlayerDoubleClick document s) = console_warn s"
    and "unhandledRejections (handlePlayerDoubleClick document s) = unhandledRejections s"
  using assms
  by (simp_all add: run_when_idle ArmedWaiting_def pending_resets_def) (simp_all add: Idle_def pending_resets_def)

lemma optional_call_catch_frame:
  "now (optional_call_catch a m l s) = now s"
  "timers (optional_call_catch a m l s) = timers s"
  "doubleClickTimeoutRef (optional_call_catch a m l s) = doubleClickTimeoutRef s"
  "containerRef (optional_call_catch a m l s) = containerRef s"
  "toggles (optional_call_catch a m l s) = toggles s @ [(a, m)]"
  "unhandledRejections (optional_call_catch a m l s) = unhandledRejections s"
  "console_warn (optional_call_catch a m l s) =
     console_warn s @ (case m of Some (Rejected err) \<Rightarrow> [(l, err)] | _ \<Rightarrow> [])"
  by (simp_all add: optional_call_catch_def catch_warn_def discard_def Let_def
      split: option.splits promise.splits)

lemma armed_cases:
  assumes "ArmedWaiting s"
  obtains h due where "doubleClickTimeoutRef s = Some h" and "h \<noteq> 0"
    and "pending_resets s = [(h, due, ResetDoubleClick)]" and "now s < due"
proof -
  from assms obtain h where h: "doubleClickTimeoutRef s = Some h" "h \<noteq> 0"
    by (auto simp: ArmedWaiting_def split: option.splits)
  with assms obtain h' due cb where p: "pending_resets s = [(h', due, cb)]" "h' = h" "now s < due"
    by (auto simp: ArmedWaiting_def split: list.splits)
  have "(h', due, cb) \<in> set (pending_resets s)" using p by simp
  then have "cb = ResetDoubleClick" by (simp add: pending_resets_def)
  with h p that show thesis by blast
qed

lemma run_pairs:
  assumes "ArmedWaiting s" and "containerRef s"
  shows "Idle (handlePlayerDoubleClick document s)"
    and "now (handlePlayerDoubleClick document s) = now s"
    and "containerRef (handlePlayerDoubleClick document s)"
    and "toggles (handlePlayerDoubleClick document s) =
           toggles s @ [if fullscreenElement document
                        then (ExitFullscreen, exitFullscreen document)
                        else (RequestFullscreen, requestFullscreen document)]"
    and "unhandledRejections (handlePlayerDoubleClick document s) = unhandledRejections s"
    and "console_warn (handlePlayerDoubleClick document s) =
           console_warn s @
             (if fullscreenElement document
              then (case exitFullscreen document of
                      Some (Rejected err) \<Rightarrow> [(''Exit fullscreen failed:'', err)] | _ \<Rightarrow> [])
              else (case requestFullscreen document of
                      Some (Rejected err) \<Rightarrow> [(''Fullscreen request failed:'', err)] | _ \<Rightarrow> []))"
proof -
  from assms(1) obtain h due where h: "doubleClickTimeoutRef s = Some h" "h \<noteq> 0"
    and p: "pending_resets s = [(h, due, ResetDoubleClick)]" by (rule armed_cases)
  have cleared: "pending_resets ((clearTimeout h s)\<lparr>doubleClickTimeoutRef := None\<rparr>) = []"
  proof -
    have "pending_resets ((clearTimeout h s)\<lparr>doubleClickTimeoutRef := None\<rparr>)
          = filter (\<lambda>(h', due, cb). h' \<noteq> h) (pending_resets s)"
      by (auto simp: pending_resets_def clearTimeout_def intro: filter_cong)
    then show ?thesis by (simp add: p)
  qed
  have pt: "pending_resets (optional_call_catch a m l s') = pending_resets s'" for a m l s'
    by (simp add: pending_resets_def optional_call_catch_frame)
  show "Idle (handlePlayerDoubleClick document s)"
    using assms(2) h cleared
    by (simp add: handlePlayerDoubleClick_def truthy_def Let_def Idle_def pt
        optional_call_catch_frame)
  show "now (handlePlayerDoubleClick document s) = now s"
    using assms(2) h
    by (simp add: handlePlayerDoubleClick_def truthy_def Let_def optional_call_catch_frame
        clearTimeout_def)
  show "containerRef (handlePlayerDoubleClick document s)"
    using assms(2) h
    by (simp add: handlePlayerDoubleClick_def truthy_def Let_def optional_call_catch_frame
        clearTimeout_def)
  show "toggles (handlePlayerDoubleClick document s) =
           toggles s @ [if fullscreenElement document
                        then (ExitFullscreen, exitFullscreen document)
                        else (RequestFullscreen, requestFullscreen document)]"
    using assms(2) h
    by (simp add: handlePlayerDoubleClick_def truthy_def Let_def optional_call_catch_frame
        clearTimeout_def)
  show "unhandledRejections (handlePlayerDoubleClick document s) = unhandledRejections s"
    using assms(2) h
    by (simp add: handlePlayerDoubleClick_def truthy_def Let_def optional_call_catch_frame
        clearTimeout_def)
  show "console_warn (handlePlayerDoubleClick document s) =
           console_warn s @
             (if fullscreenElement document
              then (case exitFullscreen document of
                      Some (Rejected err) \<Rightarrow> [(''Exit fullscreen failed:'', err)] | _ \<Rightarrow> [])
              else (case requestFullscreen document of
                      Some (Rejected err) \<Rightarrow> [(''Fullscreen request failed:'', err)] | _ \<Rightarrow> []))"
    using assms(2) h
    by (simp add: handlePlayerDoubleClick_def truthy_def Let_def optional_call_catch_frame
        clearTimeout_def)
qed

lemma advance_armed_early:
  assumes "pending_resets s = [(h, now s + 300, ResetDoubleClick)]"
    and "doubleClickTimeoutRef s = Some h" and "h \<noteq> 0" and "d < 300"
  shows "ArmedWaiting (advance d s)"
  using assms
  by (simp add: ArmedWaiting_def advance_ref advance_pending_resets advance_frame)

lemma advance_armed_late:
  assumes "pending_resets s = [(h, now s + 300, ResetDoubleClick)]" and "300 \<le> d"
  shows "Idle (advance d s)"
  using assms
  by (simp add: Idle_def advance_ref advance_pending_resets)

lemma single_dblclick_expires:
  assumes "Idle s" and "containerRef s" and "300 \<le> d"
  shows "Idle (replay [DblClick document, Wait d] s)"
    and "toggles (replay [DblClick document, Wait d] s) = toggles s"
    and "containerRef (replay [DblClick document, Wait d] s)"
proof -
  let ?s1 = "handlePlayerDoubleClick document s"
  have p: "pending_resets ?s1 = [(Suc (lastHandle s), now ?s1 + 300, ResetDoubleClick)]"
    using run_arms(2,3) [OF assms(1,2)] by simp
  from advance_armed_late [OF p assms(3)]
  show "Idle (replay [DblClick document, Wait d] s)" by simp
  show "toggles (replay [DblClick document, Wait d] s) = toggles s"
    using run_arms(5) [OF assms(1,2)] by (simp add: advance_frame)
  show "containerRef (replay [DblClick document, Wait d] s)"
    using run_arms(4) [OF assms(1,2)] by (simp add: advance_frame)
qed

lemma two_dblclicks_pair:
  assumes "Idle s" and "containerRef s" and "d < 300"
  shows "Idle (replay [DblClick document, Wait d, DblClick document'] s)"
    and "toggles (replay [DblClick document, Wait d, DblClick document'] s) = toggles s @ [toggle_of document']"
    and "containerRef (replay [DblClick document, Wait d, DblClick document'] s)"
    and "console_warn (replay [DblClick document, Wait d, DblClick document'] s) =
           console_warn s @ warning_of document'"
    and "unhandledRejections (replay [DblClick document, Wait d, DblClick document'] s) =
           unhandledRejections s"
proof -
  let ?s1 = "handlePlayerDoubleClick document s"
  let ?s2 = "advance d ?s1"
  have r: "doubleClickTimeoutRef ?s1 = Some (Suc (lastHandle s))"
    using assms(1,2) by (simp add: run_when_idle)
  have p: "pending_resets ?s1 = [(Suc (lastHandle s), now ?s1 + 300, ResetDoubleClick)]"
    using run_arms(2,3) [OF assms(1,2)] by simp
  have armed: "ArmedWaiting ?s2"
    by (rule advance_armed_early [OF p r _ assms(3)]) simp
  have c: "containerRef ?s2"
    using run_arms(4) [OF assms(1,2)] by (simp add: advance_frame)
  show "Idle (replay [DblClick document, Wait d, DblClick document'] s)"
    using run_pairs(1) [OF armed c] by simp
  show "toggles (replay [DblClick document, Wait d, DblClick document'] s) = toggles s @ [toggle_of document']"
    using run_pairs(4) [OF armed c] run_arms(5) [OF assms(1,2)]
    by (simp add: advance_frame toggle_of_def)
  show "containerRef (replay [DblClick document, Wait d, DblClick document'] s)"
    using run_pairs(3) [OF armed c] by simp
  show "console_warn (replay [DblClick document, Wait d, DblClick document'] s) =
           console_warn s @ warning_of document'"
    using run_pairs(6) [OF armed c] run_arms(6) [OF assms(1,2)]
    by (simp add: advance_frame warning_of_def)
  show "unhandledRejections (replay [DblClick document, Wait d, DblClick document'] s) =
           unhandledRejections s"
    using run_pairs(5) [OF armed c] run_arms(7) [OF assms(1,2)]
    by (simp add: advance_frame)
qed

text \<open>
  What a double tap does to an idle detector, for every gap \<open>d\<close> between the two taps:
  the one \<open>dblclick\<close> runs the handler once, which sets the timer and evaluates no
  toggle.
\<close>

lemma double_tap_arms:
  assumes "Idle s" and "containerRef s"
  shows "ArmedWaiting (replay (double_tap d document) s)"
    and "toggles (replay (double_tap d document) s) = toggles s"
    and "console_warn (replay (double_tap d document) s) = console_warn s"
proof -
  have i: "Idle (advance d s)" using assms(1) by (rule advance_Idle)
  have c: "containerRef (advance d s)" using assms(2) by (simp add: advance_frame)
  show "ArmedWaiting (replay (double_tap d document) s)"
    using run_arms(1) [OF i c] by (simp add: double_tap_def)
  show "toggles (replay (double_tap d document) s) = toggles s"
    using run_arms(5) [OF i c] by (simp add: double_tap_def advance_frame)
  show "console_warn (replay (double_tap d document) s) = console_warn s"
    using run_arms(6) [OF i c] by (simp add: double_tap_def advance_frame)
qed

section \<open>The double-tap detector\<close>

text \<open>
  C4 fails on the code in its second half. A single tap runs nothing and leaves the
  mounted component as it is. Two taps 100 ms apart reach the handler as one
  \<open>dblclick\<close>: no toggle is evaluated and the detector is \<open>ArmedWaiting\<close>, not
  \<open>Idle\<close>; when 300 ms pass, the timer fires and still nothing has been toggled. One
  toggle takes a second double tap before the timer fires, four taps in all.
\<close>

theorem double_tap_emits_nothing:
  "replay single_tap (mount True) = mount True
   \<and> Idle (mount True) \<and> containerRef (mount True)
   \<and> toggles (replay (double_tap 100 
        \<lparr>fullscreenElement = False, requestFullscreen = Some Fulfilled, exitFullscreen = Some Fulfilled\<rparr>) (mount True)) = []
   \<and> ArmedWaiting (replay (double_tap 100 
        \<lparr>fullscreenElement = False, requestFullscreen = Some Fulfilled, exitFullscreen = Some Fulfilled\<rparr>) (mount True))
   \<and> \<not> Idle (replay (double_tap 100 
        \<lparr>fullscreenElement = False, requestFullscreen = Some Fulfilled, exitFullscreen = Some Fulfilled\<rparr>) (mount True))
   \<and> toggles (replay (double_tap 100 
        \<lparr>fullscreenElement = False, requestFullscreen = Some Fulfilled, exitFullscreen = Some Fulfilled\<rparr> @ [Wait 300]) (mount True)) = []
   \<and> toggles (replay (double_tap 100 
        \<lparr>fullscreenElement = False, requestFullscreen = Some Fulfilled, exitFullscreen = Some Fulfilled\<rparr> @ [Wait 50] @ double_tap 100 
        \<lparr>fullscreenElement = False, requestFullscreen = Some Fulfilled, exitFullscreen = Some Fulfilled\<rparr>) (mount True))
       = [(RequestFullscreen, Some Fulfilled)]"
  by code_simp

text \<open>
  C5 fails on the code. Three taps 100 ms apart reach the container as three \<open>click\<close>
  events and one \<open>dblclick\<close> after the second: the handler runs once, no toggle is
  evaluated, and the one timer it set (handle 1) fires alone and leaves the detector
  \<open>Idle\<close>.
\<close>

theorem triple_tap_emits_nothing:
  "toggles (replay (triple_tap 100 100 
        \<lparr>fullscreenElement = False, requestFullscreen = Some Fulfilled, exitFullscreen = Some Fulfilled\<rparr>) (mount True)) = []
   \<and> ArmedWaiting (replay (triple_tap 100 100 
        \<lparr>fullscreenElement = False, requestFullscreen = Some Fulfilled, exitFullscreen = Some Fulfilled\<rparr>) (mount True))
   \<and> toggles (replay (triple_tap 100 100 
        \<lparr>fullscreenElement = False, requestFullscreen = Some Fulfilled, exitFullscreen = Some Fulfilled\<rparr> @ [Wait 300]) (mount True)) = []
   \<and> fired (replay (triple_tap 100 100 
        \<lparr>fullscreenElement = False, requestFullscreen = Some Fulfilled, exitFullscreen = Some Fulfilled\<rparr> @ [Wait 300]) (mount True)) = [1]
   \<and> Idle (replay (triple_tap 100 100 
        \<lparr>fullscreenElement = False, requestFullscreen = Some Fulfilled, exitFullscreen = Some Fulfilled\<rparr> @ [Wait 300]) (mount True))"
  by code_simp

section \<open>The fullscreen toggle\<close>

text \<open>
  C7 fails on the code in its first half. A completed double tap on the idle, mounted
  component evaluates no toggle: neither method is called and nothing is logged. The
  toggle is evaluated by the \<open>dblclick\<close> of a second double tap before the timer fires;
  there the rejected promise of \<open>requestFullscreen\<close> is logged by one warning and is not
  left unhandled, as the second half of the claim says.
\<close>

theorem double_tap_attempts_no_toggle:
  "toggles (replay (double_tap 100 
        \<lparr>fullscreenElement = False, requestFullscreen = Some (Rejected ''NotAllowedError''), exitFullscreen = Some Fulfilled\<rparr>) (mount True)) = []
   \<and> console_warn (replay (double_tap 100 
        \<lparr>fullscreenElement = False, requestFullscreen = Some (Rejected ''NotAllowedError''), exitFullscreen = Some Fulfilled\<rparr>) (mount True)) = []
   \<and> toggles (replay (double_tap 100 
        \<lparr>fullscreenElement = False, requestFullscreen = Some (Rejected ''NotAllowedError''), exitFullscreen = Some Fulfilled\<rparr> @ [Wait 50] @ double_tap 100 
        \<lparr>fullscreenElement = False, requestFullscreen = Some (Rejected ''NotAllowedError''), exitFullscreen = Some Fulfilled\<rparr>) (mount True))
       = [(RequestFullscreen, Some (Rejected ''NotAllowedError''))]
   \<and> console_warn (replay (double_tap 100 
        \<lparr>fullscreenElement = False, requestFullscreen = Some (Rejected ''NotAllowedError''), exitFullscreen = Some Fulfilled\<rparr> @ [Wait 50] @ double_tap 100 
        \<lparr>fullscreenElement = False, requestFullscreen = Some (Rejected ''NotAllowedError''), exitFullscreen = Some Fulfilled\<rparr>) (mount True))
       = [(''Fullscreen request failed:'', ''NotAllowedError'')]
   \<and> unhandledRejections
        (replay (double_tap 100 
        \<lparr>fullscreenElement = False, requestFullscreen = Some (Rejected ''NotAllowedError''), exitFullscreen = Some Fulfilled\<rparr> @ [Wait 50] @ double_tap 100 
        \<lparr>fullscreenElement = False, requestFullscreen = Some (Rejected ''NotAllowedError''), exitFullscreen = Some Fulfilled\<rparr>) (mount True)) = []"
  by code_simp

section \<open>The timer at unmount\<close>

text \<open>
  C8 fails on the code. The component is mounted before the player script is there, the
  handler runs once and the component is unmounted: the cleanup has cleared the
  script-check timer (handle 1), the double-click timer (handle 2) is still in the queue
  with the container reference already \<open>null\<close>, and 300 ms later its callback runs.
\<close>

theorem unmount_keeps_double_click_timer:
  "timers (replay [DblClick \<lparr>fullscreenElement = False, requestFullscreen = Some Fulfilled, exitFullscreen = Some Fulfilled\<rparr>, Unmount] (mount False)) = [(2, 300, ResetDoubleClick)]
   \<and> containerRef (replay [DblClick \<lparr>fullscreenElement = False, requestFullscreen = Some Fulfilled, exitFullscreen = Some Fulfilled\<rparr>, Unmount] (mount False)) = False
   \<and> fired (replay [DblClick \<lparr>fullscreenElement = False, requestFullscreen = Some Fulfilled, exitFullscreen = Some Fulfilled\<rparr>, Unmount, Wait 300] (mount False)) = [2]"
  by code_simp

section \<open>View tracking\<close>

lemma deliver_calls:
  assumes "listener_hasTrackedView s = hasTrackedView s"
  shows "onViewTracked_calls (deliver True evs s) =
           onViewTracked_calls s + (if \<not> hasTrackedView s \<and> Play \<in> set evs then 1 else 0)"
  using assms
proof (induction evs arbitrary: s)
  case Nil
  show ?case by simp
next
  case (Cons e evs)
  let ?s' = "dispatch True e s"
  have sync: "listener_hasTrackedView ?s' = hasTrackedView ?s'"
    by (cases e) (simp_all add: resubscribe_def)
  show ?case
  proof (cases e)
    case Play
    have "hasTrackedView ?s'" and "onViewTracked_calls ?s' =
        onViewTracked_calls s + (if hasTrackedView s then 0 else 1)"
      using Cons.prems by (simp_all add: Play handlePlay_def resubscribe_def Let_def)
    then show ?thesis using Cons.IH [OF sync] by (simp add: Play)
  next
    case Pause
    have "hasTrackedView ?s' = hasTrackedView s" and "onViewTracked_calls ?s' = onViewTracked_calls s"
      by (simp_all add: Pause handlePause_def resubscribe_def)
    then show ?thesis using Cons.IH [OF sync] by (simp add: Pause)
  qed
qed

lemma deliver_calls_mount:
  "onViewTracked_calls (deliver True evs session_mount) = (if Play \<in> set evs then 1 else 0)"
proof -
  have "listener_hasTrackedView session_mount = hasTrackedView session_mount"
    by (simp add: session_mount_def resubscribe_def)
  from deliver_calls [OF this, of evs] show ?thesis
    by (simp add: session_mount_def resubscribe_def)
qed

text \<open>
  C6: in a session whose host gives \<open>onViewTracked\<close>, the callback has been called once
  after any sequence of play and pause events that contains a play event, and never
  before the first play event: the call is made at the first play event and at no later
  one.
\<close>

theorem view_tracked_once:
  "onViewTracked_calls (deliver True evs session_mount) = (if Play \<in> set evs then 1 else 0)
   \<and> (Play \<notin> set before \<longrightarrow>
        onViewTracked_calls (deliver True before session_mount) = 0
        \<and> onViewTracked_calls (deliver True (before @ [Play]) session_mount) = 1
        \<and> onViewTracked_calls (deliver True (before @ Play # after) session_mount) = 1)"
  by (simp add: deliver_calls_mount)

theorem view_tracked_once_witness:
  "Play \<notin> set [Pause]
   \<and> onViewTracked_calls (deliver True [Play, Pause, Play, Pause, Play] session_mount) = 1
   \<and> onViewTracked_calls (deliver True [Pause] session_mount) = 0
   \<and> onViewTracked_calls (deliver True ([Pause] @ [Play]) session_mount) = 1
   \<and> onViewTracked_calls (deliver True ([Pause] @ Play # [Pause, Play]) session_mount) = 1"
  using view_tracked_once [of "[Play, Pause, Play, Pause, Play]" "[Pause]" "[Pause, Play]"]
  by simp

text \<open>
  Two remarks on the session. Without the property no call is made, and the modal of
  this repository does not pass it. And the single call rests on the re-run of the effect:
  the same listener run twice reads the same captured \<open>hasTrackedView\<close>.
\<close>

lemma no_callback_no_notification:
  "onViewTracked_calls (deliver False evs s) = onViewTracked_calls s"
proof (induction evs arbitrary: s)
  case Nil
  show ?case by simp
next
  case (Cons e evs)
  show ?case
    by (cases e) (simp_all add: Cons.IH handlePlay_def handlePause_def resubscribe_def Let_def)
qed

lemma stale_listener_notifies_twice:
  "onViewTracked_calls (handlePlay True (handlePlay True session_mount)) = 2"
  by (simp add: handlePlay_def session_mount_def resubscribe_def Let_def)

end
